theory Spec2Isabelle
  imports Main
begin

section \<open>Players\<close>

text \<open>
  The tournament simulator of \<^verbatim>\<open>src/tournmant.cpp\<close>. Every player object lives behind a
  \<^verbatim>\<open>shared_ptr<Player>\<close>; the lineups of an innings and its per-player maps hold such
  pointers. The model keeps an explicit store from addresses to player objects, and a
  lineup is a list of addresses, so that two lineups naming the same address share the
  object exactly as the C++ does.

  C++ \<^verbatim>\<open>int\<close> counters are modelled as \<open>int\<close>: a tournament has six matches of at most 24
  balls and at most 6 runs a ball, so no counter comes near the 32-bit range.
\<close>

datatype PlayerType = BATSMAN | BOWLER | ALLROUNDER

datatype MatchResult = WIN | LOSS | TIE | NO_RESULT

text \<open>
  One record holds the fields of class \<^verbatim>\<open>Player\<close> followed by those of the subclasses
  \<^verbatim>\<open>Batsman\<close> (\<open>runsScored\<close> .. \<open>sixes\<close>) and \<^verbatim>\<open>Bowler\<close> (\<open>wicketsTaken\<close> .. \<open>maidens\<close>).
  The tag \<open>ptype\<close> is the dynamic class of the object (each constructor passes its own
  tag to \<^verbatim>\<open>Player\<close>), and the functions below dispatch on it the way the virtual calls do,
  so the fields of a class the object is not are never written. The two sub-objects of
  \<^verbatim>\<open>AllRounder\<close> are reachable only through \<^verbatim>\<open>addBattingRuns\<close>, \<^verbatim>\<open>addBowlingWicket\<close> and
  \<^verbatim>\<open>addBowlingRuns\<close>, which nothing calls.
\<close>

record Player =
  name :: string
  age :: int
  ptype :: PlayerType
  totalCredits :: int
  matchCredits :: int
  totalRunsScored :: int
  totalBallsFaced :: int
  totalWicketsTaken :: int
  totalBallsBowled :: int
  totalRunsConceded :: int
  runsScored :: int
  ballsFaced :: int
  fours :: int
  sixes :: int
  wicketsTaken :: int
  runsConceded :: int
  ballsBowled :: int
  maidens :: int

definition newPlayer :: "string \<Rightarrow> int \<Rightarrow> PlayerType \<Rightarrow> Player" where
  "newPlayer n a t =
     \<lparr>name = n, age = a, ptype = t, totalCredits = 0, matchCredits = 0,
      totalRunsScored = 0, totalBallsFaced = 0, totalWicketsTaken = 0,
      totalBallsBowled = 0, totalRunsConceded = 0,
      runsScored = 0, ballsFaced = 0, fours = 0, sixes = 0,
      wicketsTaken = 0, runsConceded = 0, ballsBowled = 0, maidens = 0\<rparr>"

definition resetMatchCredits :: "Player \<Rightarrow> Player" where
  "resetMatchCredits p = p\<lparr>matchCredits := 0\<rparr>"

definition addToTotalRuns :: "nat \<Rightarrow> Player \<Rightarrow> Player" where
  "addToTotalRuns runs p = p\<lparr>totalRunsScored := totalRunsScored p + int runs\<rparr>"

definition addToTotalBallsFaced :: "Player \<Rightarrow> Player" where
  "addToTotalBallsFaced p = p\<lparr>totalBallsFaced := totalBallsFaced p + 1\<rparr>"

definition addToTotalWickets :: "int \<Rightarrow> Player \<Rightarrow> Player" where
  "addToTotalWickets wickets p = p\<lparr>totalWicketsTaken := totalWicketsTaken p + wickets\<rparr>"

definition addToTotalBallsBowled :: "Player \<Rightarrow> Player" where
  "addToTotalBallsBowled p = p\<lparr>totalBallsBowled := totalBallsBowled p + 1\<rparr>"

definition addToTotalRunsConceded :: "nat \<Rightarrow> Player \<Rightarrow> Player" where
  "addToTotalRunsConceded runs p = p\<lparr>totalRunsConceded := totalRunsConceded p + int runs\<rparr>"

text \<open>
  \<^verbatim>\<open>updateCredits(runs, wickets)\<close>, one branch per override. The run count is a ball
  outcome, a value of \<^verbatim>\<open>{0, 1, 2, 3, 4, 5, 6}\<close>, hence a natural number here, on which the
  truncating \<^verbatim>\<open>runs / 20\<close> is \<open>div\<close>.
\<close>

definition updateCredits :: "nat \<Rightarrow> int \<Rightarrow> Player \<Rightarrow> Player" where
  "updateCredits runs wickets p =
     (case ptype p of
        BATSMAN \<Rightarrow>
          p\<lparr>matchCredits := matchCredits p + int (runs div 20),
            totalCredits := totalCredits p + int (runs div 20)\<rparr>
      | BOWLER \<Rightarrow>
          p\<lparr>matchCredits := matchCredits p + wickets,
            totalCredits := totalCredits p + wickets\<rparr>
      | ALLROUNDER \<Rightarrow>
          p\<lparr>matchCredits := matchCredits p + (int (runs div 20) + wickets),
            totalCredits := totalCredits p + (int (runs div 20) + wickets)\<rparr>)"

text \<open>
  The three virtual methods of \<^verbatim>\<open>Player\<close>. \<^verbatim>\<open>Batsman\<close> overrides \<^verbatim>\<open>addRuns\<close> and
  \<^verbatim>\<open>addBall\<close>, \<^verbatim>\<open>Bowler\<close> overrides all three, \<^verbatim>\<open>AllRounder\<close> overrides none and so runs
  the bodies of \<^verbatim>\<open>Player\<close>.
\<close>

definition addRuns :: "nat \<Rightarrow> Player \<Rightarrow> Player" where
  "addRuns runs p =
     (case ptype p of
        BATSMAN \<Rightarrow>
          (let p1 = p\<lparr>runsScored := runsScored p + int runs\<rparr>;
               p2 = addToTotalRuns runs p1;
               p3 = updateCredits runs 0 p2
           in if runs = 4 then p3\<lparr>fours := fours p3 + 1\<rparr>
              else if runs = 6 then p3\<lparr>sixes := sixes p3 + 1\<rparr>
              else p3)
      | BOWLER \<Rightarrow>
          addToTotalRunsConceded runs (p\<lparr>runsConceded := runsConceded p + int runs\<rparr>)
      | ALLROUNDER \<Rightarrow> addToTotalRuns runs p)"

definition addBall :: "Player \<Rightarrow> Player" where
  "addBall p =
     (case ptype p of
        BATSMAN \<Rightarrow> addToTotalBallsFaced (p\<lparr>ballsFaced := ballsFaced p + 1\<rparr>)
      | BOWLER \<Rightarrow> addToTotalBallsBowled (p\<lparr>ballsBowled := ballsBowled p + 1\<rparr>)
      | ALLROUNDER \<Rightarrow> addToTotalBallsBowled p)"

definition addWicket :: "Player \<Rightarrow> Player" where
  "addWicket p =
     (case ptype p of
        BATSMAN \<Rightarrow> addToTotalWickets 1 p
      | BOWLER \<Rightarrow>
          updateCredits 0 1 (addToTotalWickets 1 (p\<lparr>wicketsTaken := wicketsTaken p + 1\<rparr>))
      | ALLROUNDER \<Rightarrow> addToTotalWickets 1 p)"

definition resetMatchStats :: "Player \<Rightarrow> Player" where
  "resetMatchStats p =
     (case ptype p of
        BATSMAN \<Rightarrow>
          resetMatchCredits (p\<lparr>runsScored := 0, ballsFaced := 0, fours := 0, sixes := 0\<rparr>)
      | BOWLER \<Rightarrow>
          resetMatchCredits
            (p\<lparr>wicketsTaken := 0, runsConceded := 0, ballsBowled := 0, maidens := 0\<rparr>)
      | ALLROUNDER \<Rightarrow> resetMatchCredits p)"

section \<open>The innings engine\<close>

type_synonym addr = nat

type_synonym store = "addr \<Rightarrow> Player"

text \<open>
  What the C++ leaves undefined is a value of the model: reading a vector outside its
  bounds, taking a remainder by zero, and dereferencing a null pointer.
\<close>

datatype fault = OutOfRange | DivByZero | NullPointer

record Innings =
  battingOrder :: "addr list"
  bowlingOrder :: "addr list"
  currentBatsman1 :: int
  currentBatsman2 :: int
  currentBowler :: int
  previousBowler :: int
  totalRuns :: int
  totalWickets :: int
  totalOvers :: int
  totalBalls :: int
  currentOverBalls :: int
  playerRuns :: "addr \<rightharpoonup> int"
  playerWickets :: "addr \<rightharpoonup> int"

type_synonym world = "store \<times> Innings"

text \<open>An \<^verbatim>\<open>int\<close> index is inside a vector.\<close>

definition inRange :: "'a list \<Rightarrow> int \<Rightarrow> bool" where
  "inRange xs i = (0 \<le> i \<and> i < int (length xs))"

text \<open>\<^verbatim>\<open>m[k] += v\<close> on a \<^verbatim>\<open>std::map\<close>: a missing key is first inserted with value 0.\<close>

definition mapAdd :: "(addr \<rightharpoonup> int) \<Rightarrow> addr \<Rightarrow> int \<Rightarrow> (addr \<rightharpoonup> int)" where
  "mapAdd m k v = m(k \<mapsto> (case m k of None \<Rightarrow> 0 | Some x \<Rightarrow> x) + v)"

text \<open>
  The constructor, given the two \<^verbatim>\<open>getPlaying5()\<close> lineups: batting indices 0 and 1,
  bowler 0, no previous bowler, every counter 0, every player of a lineup entered in the
  matching map with 0.
\<close>

definition newInnings :: "addr list \<Rightarrow> addr list \<Rightarrow> Innings" where
  "newInnings batting bowling =
     \<lparr>battingOrder = batting, bowlingOrder = bowling,
      currentBatsman1 = 0, currentBatsman2 = 1, currentBowler = 0, previousBowler = - 1,
      totalRuns = 0, totalWickets = 0, totalOvers = 0, totalBalls = 0, currentOverBalls = 0,
      playerRuns = fold (\<lambda>p m. m(p \<mapsto> 0)) batting Map.empty,
      playerWickets = fold (\<lambda>p m. m(p \<mapsto> 0)) bowling Map.empty\<rparr>"

text \<open>
  \<^verbatim>\<open>setBatsmen\<close> and \<^verbatim>\<open>setBowler\<close> walk the whole lineup with a counter \<open>i\<close>; every entry
  whose name matches overwrites the index, and an index whose name matches nothing keeps
  the value it had. Both return \<^verbatim>\<open>void\<close>.
\<close>

fun setBatsmen_loop ::
  "store \<Rightarrow> string \<Rightarrow> string \<Rightarrow> addr list \<Rightarrow> int \<Rightarrow> int \<times> int \<Rightarrow> int \<times> int" where
  "setBatsmen_loop st striker nonStriker [] i (b1, b2) = (b1, b2)"
| "setBatsmen_loop st striker nonStriker (p # ps) i (b1, b2) =
     setBatsmen_loop st striker nonStriker ps (i + 1)
       (if name (st p) = striker then i else b1,
        if name (st p) = nonStriker then i else b2)"

definition setBatsmen :: "store \<Rightarrow> string \<Rightarrow> string \<Rightarrow> Innings \<Rightarrow> Innings" where
  "setBatsmen st striker nonStriker inn =
     (case setBatsmen_loop st striker nonStriker (battingOrder inn) 0
             (currentBatsman1 inn, currentBatsman2 inn) of
        (b1, b2) \<Rightarrow> inn\<lparr>currentBatsman1 := b1, currentBatsman2 := b2\<rparr>)"

fun setBowler_loop :: "store \<Rightarrow> string \<Rightarrow> addr list \<Rightarrow> int \<Rightarrow> int \<Rightarrow> int" where
  "setBowler_loop st bowlerName [] i b = b"
| "setBowler_loop st bowlerName (p # ps) i b =
     setBowler_loop st bowlerName ps (i + 1) (if name (st p) = bowlerName then i else b)"

definition setBowler :: "store \<Rightarrow> string \<Rightarrow> Innings \<Rightarrow> Innings" where
  "setBowler st bowlerName inn =
     inn\<lparr>currentBowler := setBowler_loop st bowlerName (bowlingOrder inn) 0 (currentBowler inn)\<rparr>"

definition isInningsComplete :: "Innings \<Rightarrow> bool" where
  "isInningsComplete inn = (totalWickets inn \<ge> 2 \<or> totalOvers inn \<ge> 2)"

definition changeStrike :: "Innings \<Rightarrow> Innings" where
  "changeStrike inn =
     inn\<lparr>currentBatsman1 := currentBatsman2 inn, currentBatsman2 := currentBatsman1 inn\<rparr>"

text \<open>
  \<^verbatim>\<open>nextBatsman < battingOrder.size()\<close> compares an \<^verbatim>\<open>int\<close> with a \<^verbatim>\<open>size_t\<close>: the \<^verbatim>\<open>int\<close> is
  converted to unsigned, so a negative value is never below the size.
\<close>

definition changeBatsman :: "Innings \<Rightarrow> Innings" where
  "changeBatsman inn =
     (let nextBatsman = max (currentBatsman1 inn) (currentBatsman2 inn) + 1
      in if 0 \<le> nextBatsman \<and> nextBatsman < int (length (battingOrder inn)) then
           (if currentBatsman1 inn > currentBatsman2 inn
            then inn\<lparr>currentBatsman1 := nextBatsman\<rparr>
            else inn\<lparr>currentBatsman2 := nextBatsman\<rparr>)
         else inn)"

text \<open>
  \<^verbatim>\<open>changeBowler\<close>: the \<^verbatim>\<open>do ... while\<close> loop may run forever, so it is a partial function
  whose value \<open>None\<close> means that the loop does not return. The remainder by an empty
  lineup's size is a fault. \<^verbatim>\<open>playBall\<close> reads \<^verbatim>\<open>bowlingOrder[currentBowler]\<close> before it
  calls \<^verbatim>\<open>changeBowler\<close>, so the index is never negative here and its conversion to
  \<^verbatim>\<open>size_t\<close> keeps the value; the remainder is below the size of the lineup and fits
  an \<^verbatim>\<open>int\<close> again.
\<close>

partial_function (option) changeBowler_loop :: "Innings \<Rightarrow> (fault + Innings) option" where
  "changeBowler_loop inn =
     (if length (bowlingOrder inn) = 0 then Some (Inl DivByZero)
      else
        (let inn' = inn\<lparr>currentBowler :=
                          (currentBowler inn + 1) mod int (length (bowlingOrder inn))\<rparr>
         in if currentBowler inn' = previousBowler inn' then changeBowler_loop inn'
            else Some (Inr inn')))"

declare changeBowler_loop.simps [code]

definition changeBowler :: "Innings \<Rightarrow> (fault + Innings) option" where
  "changeBowler inn = changeBowler_loop (inn\<lparr>previousBowler := currentBowler inn\<rparr>)"

text \<open>
  \<^verbatim>\<open>printCommentary\<close> writes text, which is not modelled, but it reads the names of
  \<^verbatim>\<open>battingOrder[currentBatsman1]\<close> and \<^verbatim>\<open>bowlingOrder[currentBowler]\<close> first.
\<close>

definition printCommentary :: "Innings \<Rightarrow> fault + unit" where
  "printCommentary inn =
     (if \<not> inRange (battingOrder inn) (currentBatsman1 inn) then Inl OutOfRange
      else if \<not> inRange (bowlingOrder inn) (currentBowler inn) then Inl OutOfRange
      else Inr ())"

text \<open>
  \<^verbatim>\<open>playBall\<close> in three parts. The drawn \<open>outcome\<close> is the argument: the C++ draws it from
  \<^verbatim>\<open>ballOutcomes = {0, 1, 2, 3, 4, 5, 6}\<close> with a generator seeded anew on every call.
  First the branch \<^verbatim>\<open>outcome == 5\<close>.
\<close>

definition playBall_wicket :: "world \<Rightarrow> fault + world" where
  "playBall_wicket w =
     (case w of (st, inn) \<Rightarrow>
        if \<not> inRange (bowlingOrder inn) (currentBowler inn) then Inl OutOfRange
        else
          (let b = bowlingOrder inn ! nat (currentBowler inn);
               inn1 = inn\<lparr>totalWickets := totalWickets inn + 1,
                          playerWickets := mapAdd (playerWickets inn) b 1\<rparr>;
               st1 = st(b := addWicket (st b));
               st2 = st1(b := addBall (st1 b));
               inn2 = changeBatsman inn1
           in case printCommentary inn2 of
                Inl e \<Rightarrow> Inl e
              | Inr _ \<Rightarrow> Inr (st2, inn2)))"

text \<open>The branch of a run outcome.\<close>

definition playBall_runs :: "nat \<Rightarrow> world \<Rightarrow> fault + world" where
  "playBall_runs outcome w =
     (case w of (st, inn) \<Rightarrow>
        if \<not> inRange (battingOrder inn) (currentBatsman1 inn) then Inl OutOfRange
        else
          (let s = battingOrder inn ! nat (currentBatsman1 inn);
               inn1 = inn\<lparr>totalRuns := totalRuns inn + int outcome,
                          playerRuns := mapAdd (playerRuns inn) s (int outcome)\<rparr>;
               st1 = st(s := addRuns outcome (st s));
               st2 = st1(s := addBall (st1 s));
               inn2 = (if outcome mod 2 = 1 then changeStrike inn1 else inn1)
           in case printCommentary inn2 of
                Inl e \<Rightarrow> Inl e
              | Inr _ \<Rightarrow> Inr (st2, inn2)))"

text \<open>The ball count, the bowler's \<^verbatim>\<open>addBall\<close> and the end of the over.\<close>

definition playBall_count :: "world \<Rightarrow> (fault + world) option" where
  "playBall_count w =
     (case w of (st, inn) \<Rightarrow>
        (let inn1 = inn\<lparr>totalBalls := totalBalls inn + 1,
                        currentOverBalls := currentOverBalls inn + 1\<rparr>
         in if \<not> inRange (bowlingOrder inn1) (currentBowler inn1) then Some (Inl OutOfRange)
            else
              (let b = bowlingOrder inn1 ! nat (currentBowler inn1);
                   st1 = st(b := addBall (st b))
               in if currentOverBalls inn1 = 6 then
                    (case changeBowler inn1 of
                       None \<Rightarrow> None
                     | Some (Inl e) \<Rightarrow> Some (Inl e)
                     | Some (Inr inn2) \<Rightarrow>
                         Some (Inr (st1, inn2\<lparr>currentOverBalls := 0,
                                               totalOvers := totalOvers inn2 + 1\<rparr>)))
                  else Some (Inr (st1, inn1)))))"

definition playBall :: "nat \<Rightarrow> world \<Rightarrow> (fault + world) option" where
  "playBall outcome w =
     (if isInningsComplete (snd w) then Some (Inr w)
      else
        (case (if outcome = 5 then playBall_wicket w else playBall_runs outcome w) of
           Inl e \<Rightarrow> Some (Inl e)
         | Inr w1 \<Rightarrow> playBall_count w1))"

text \<open>
  The loop \<^verbatim>\<open>while (!innings->isInningsComplete()) innings->playBall();\<close> of
  \<^verbatim>\<open>Match::playMatch\<close>. The random source is a function \<open>rnd\<close> giving the outcome of the
  \<open>k\<close>-th draw; the loop returns the number of draws made so far with the final state.
\<close>

partial_function (option) playInnings ::
  "(nat \<Rightarrow> nat) \<Rightarrow> nat \<Rightarrow> world \<Rightarrow> (fault + nat \<times> world) option" where
  "playInnings rnd k w =
     (if isInningsComplete (snd w) then Some (Inr (k, w))
      else
        (case playBall (rnd k) w of
           None \<Rightarrow> None
         | Some (Inl e) \<Rightarrow> Some (Inl e)
         | Some (Inr w1) \<Rightarrow> playInnings rnd (Suc k) w1))"

declare playInnings.simps [code]

text \<open>
  A caller that invokes \<^verbatim>\<open>playBall\<close> once for each outcome of a list, whatever the state:
  a call on a complete innings returns at once, as in the C++.
\<close>

fun playBalls :: "nat list \<Rightarrow> world \<Rightarrow> (fault + world) option" where
  "playBalls [] w = Some (Inr w)"
| "playBalls (b # bs) w =
     (case playBall b w of
        None \<Rightarrow> None
      | Some (Inl e) \<Rightarrow> Some (Inl e)
      | Some (Inr w1) \<Rightarrow> playBalls bs w1)"

text \<open>
  \<^verbatim>\<open>getPlayerOfInnings\<close>: one scan with a strict comparison over the batting order, then
  over the bowling order, carrying \<^verbatim>\<open>bestPlayer\<close> (\<open>None\<close> is \<^verbatim>\<open>nullptr\<close>) and
  \<^verbatim>\<open>maxCredits\<close>, which starts at \<open>-1\<close>.
\<close>

fun bestMatchCredits :: "store \<Rightarrow> addr list \<Rightarrow> addr option \<times> int \<Rightarrow> addr option \<times> int" where
  "bestMatchCredits st [] (bestPlayer, maxCredits) = (bestPlayer, maxCredits)"
| "bestMatchCredits st (p # ps) (bestPlayer, maxCredits) =
     bestMatchCredits st ps
       (if matchCredits (st p) > maxCredits then (Some p, matchCredits (st p))
        else (bestPlayer, maxCredits))"

definition getPlayerOfInnings :: "store \<Rightarrow> Innings \<Rightarrow> addr option" where
  "getPlayerOfInnings st inn =
     fst (bestMatchCredits st (bowlingOrder inn)
            (bestMatchCredits st (battingOrder inn) (None, - 1)))"

section \<open>The match\<close>

text \<open>
  A match owns its two innings; the first has team 1 batting. The teams enter only through
  their \<^verbatim>\<open>getPlaying5()\<close> lineups. \<^verbatim>\<open>determineResult\<close> also updates the counters and points
  of both teams, which are outside the player store and are left out; venue and date are
  only printed.
\<close>

record Match =
  innings1 :: Innings
  innings2 :: Innings
  result :: "MatchResult option"
  playerOfMatch :: "addr option"

definition newMatch :: "addr list \<Rightarrow> addr list \<Rightarrow> Match" where
  "newMatch team1 team2 =
     \<lparr>innings1 = newInnings team1 team2, innings2 = newInnings team2 team1,
      result = None, playerOfMatch = None\<rparr>"

text \<open>
  \<^verbatim>\<open>setupInnings\<close> reads striker, non-striker and bowler of each innings from the console;
  here they are the two triples of names.
\<close>

definition setupInnings ::
  "store \<Rightarrow> string \<times> string \<times> string \<Rightarrow> string \<times> string \<times> string \<Rightarrow> Match \<Rightarrow> Match" where
  "setupInnings st names1 names2 m =
     (case names1 of (striker1, nonStriker1, bowler1) \<Rightarrow>
      case names2 of (striker2, nonStriker2, bowler2) \<Rightarrow>
        m\<lparr>innings1 := setBowler st bowler1 (setBatsmen st striker1 nonStriker1 (innings1 m)),
          innings2 := setBowler st bowler2 (setBatsmen st striker2 nonStriker2 (innings2 m))\<rparr>)"

definition determineResult :: "Match \<Rightarrow> Match" where
  "determineResult m =
     (let score1 = totalRuns (innings1 m); score2 = totalRuns (innings2 m)
      in if score1 > score2 then m\<lparr>result := Some WIN\<rparr>
         else if score2 > score1 then m\<lparr>result := Some LOSS\<rparr>
         else m\<lparr>result := Some TIE\<rparr>)"

definition calculatePlayerOfMatch :: "store \<Rightarrow> Match \<Rightarrow> fault + addr" where
  "calculatePlayerOfMatch st m =
     (case getPlayerOfInnings st (innings1 m) of
        None \<Rightarrow> Inl NullPointer
      | Some player1 \<Rightarrow>
          (case getPlayerOfInnings st (innings2 m) of
             None \<Rightarrow> Inl NullPointer
           | Some player2 \<Rightarrow>
               if matchCredits (st player1) > matchCredits (st player2) then Inr player1
               else Inr player2))"

text \<open>
  \<^verbatim>\<open>playMatch\<close>: the first innings to completion, then the second, then the result and the
  player of the match. Every ball draws afresh, so one source \<open>rnd\<close> serves both innings,
  the second continuing where the first stopped.
\<close>

definition playMatch :: "(nat \<Rightarrow> nat) \<Rightarrow> store \<Rightarrow> Match \<Rightarrow> (fault + store \<times> Match) option" where
  "playMatch rnd st m =
     (case playInnings rnd 0 (st, innings1 m) of
        None \<Rightarrow> None
      | Some (Inl e) \<Rightarrow> Some (Inl e)
      | Some (Inr (k1, st1, i1)) \<Rightarrow>
          (case playInnings rnd k1 (st1, innings2 m) of
             None \<Rightarrow> None
           | Some (Inl e) \<Rightarrow> Some (Inl e)
           | Some (Inr (k2, st2, i2)) \<Rightarrow>
               (let m1 = determineResult (m\<lparr>innings1 := i1, innings2 := i2\<rparr>)
                in case calculatePlayerOfMatch st2 m1 of
                     Inl e \<Rightarrow> Some (Inl e)
                   | Inr p \<Rightarrow> Some (Inr (st2, m1\<lparr>playerOfMatch := Some p\<rparr>)))))"

section \<open>The tournament\<close>

text \<open>
  Of class \<^verbatim>\<open>Tournament\<close> the model keeps what decides which matches are played on which
  players: the lineups of the teams, the fixtures and the round counter. The players
  themselves are in the store. \<^verbatim>\<open>generateFixtures\<close> pairs every team with every later one.
\<close>

record Tournament =
  teams :: "addr list list"
  matches :: "Match list"
  currentRound :: nat
  isCompleted :: bool

definition newTournament :: "addr list list \<Rightarrow> Tournament" where
  "newTournament ts = \<lparr>teams = ts, matches = [], currentRound = 0, isCompleted = False\<rparr>"

definition generateFixtures :: "Tournament \<Rightarrow> Tournament" where
  "generateFixtures t =
     t\<lparr>matches := matches t @
          concat (map (\<lambda>i. map (\<lambda>j. newMatch (teams t ! i) (teams t ! j))
                                [i + 1 ..< length (teams t)])
                      [0 ..< length (teams t)])\<rparr>"

text \<open>
  \<^verbatim>\<open>playRound\<close>: if a fixture is left, set it up with the names typed at the console, play
  it, and advance the counter. Nothing else happens between two matches. The arguments
  \<open>rnd\<close> and the two triples of names are the draws and the console input of this round.
\<close>

definition playRound ::
  "(nat \<Rightarrow> nat) \<Rightarrow> string \<times> string \<times> string \<Rightarrow> string \<times> string \<times> string \<Rightarrow>
   store \<times> Tournament \<Rightarrow> (fault + store \<times> Tournament) option" where
  "playRound rnd names1 names2 w =
     (case w of (st, t) \<Rightarrow>
        if currentRound t < length (matches t) then
          (case playMatch rnd st
                  (setupInnings st names1 names2 (matches t ! currentRound t)) of
             None \<Rightarrow> None
           | Some (Inl e) \<Rightarrow> Some (Inl e)
           | Some (Inr (st1, m1)) \<Rightarrow>
               Some (Inr (st1, t\<lparr>matches := (matches t)[currentRound t := m1],
                                 currentRound := currentRound t + 1\<rparr>)))
        else Some (Inr (st, t)))"

text \<open>
  The loop of \<^verbatim>\<open>playTournament\<close>, \<^verbatim>\<open>for (i = 0; i < matches.size(); i++) playRound();\<close>, as
  the number of iterations still to run; \<open>rnds r\<close> and \<open>input r\<close> are the draws and the
  console input of round \<open>r\<close>. A fault or a match that does not return ends the run.
\<close>

fun playTournament_loop ::
  "(nat \<Rightarrow> nat \<Rightarrow> nat) \<Rightarrow> (nat \<Rightarrow> (string \<times> string \<times> string) \<times> (string \<times> string \<times> string)) \<Rightarrow>
   nat \<Rightarrow> (fault + store \<times> Tournament) option \<Rightarrow> (fault + store \<times> Tournament) option" where
  "playTournament_loop rnds input 0 r = r"
| "playTournament_loop rnds input (Suc n) (Some (Inr (st, t))) =
     playTournament_loop rnds input n
       (playRound (rnds (currentRound t)) (fst (input (currentRound t)))
          (snd (input (currentRound t))) (st, t))"
| "playTournament_loop rnds input (Suc n) r = r"

definition playTournament ::
  "(nat \<Rightarrow> nat \<Rightarrow> nat) \<Rightarrow> (nat \<Rightarrow> (string \<times> string \<times> string) \<times> (string \<times> string \<times> string)) \<Rightarrow>
   store \<times> Tournament \<Rightarrow> (fault + store \<times> Tournament) option" where
  "playTournament rnds input w =
     (case playTournament_loop rnds input (length (matches (snd w))) (Some (Inr w)) of
        None \<Rightarrow> None
      | Some (Inl e) \<Rightarrow> Some (Inl e)
      | Some (Inr (st, t)) \<Rightarrow> Some (Inr (st, t\<lparr>isCompleted := True\<rparr>)))"

section \<open>A concrete tournament\<close>

text \<open>
  Four squads as \<^verbatim>\<open>createTeams\<close> and \<^verbatim>\<open>createPlayers\<close> build them, five players each, at
  addresses 0 to 19: two batsmen, an all-rounder and two bowlers per team.
\<close>

definition demoStore :: store where
  "demoStore =
     (\<lambda>_. newPlayer [] 0 BATSMAN)
       (0 := newPlayer ''A1'' 31 BATSMAN, 1 := newPlayer ''A2'' 27 BATSMAN,
        2 := newPlayer ''A3'' 29 ALLROUNDER, 3 := newPlayer ''A4'' 24 BOWLER,
        4 := newPlayer ''A5'' 33 BOWLER,
        5 := newPlayer ''B1'' 30 BATSMAN, 6 := newPlayer ''B2'' 26 BATSMAN,
        7 := newPlayer ''B3'' 28 ALLROUNDER, 8 := newPlayer ''B4'' 25 BOWLER,
        9 := newPlayer ''B5'' 32 BOWLER,
        10 := newPlayer ''C1'' 22 BATSMAN, 11 := newPlayer ''C2'' 35 BATSMAN,
        12 := newPlayer ''C3'' 23 ALLROUNDER, 13 := newPlayer ''C4'' 34 BOWLER,
        14 := newPlayer ''C5'' 21 BOWLER,
        15 := newPlayer ''D1'' 36 BATSMAN, 16 := newPlayer ''D2'' 20 BATSMAN,
        17 := newPlayer ''D3'' 37 ALLROUNDER, 18 := newPlayer ''D4'' 19 BOWLER,
        19 := newPlayer ''D5'' 38 BOWLER)"

definition teamA :: "addr list" where
  "teamA = [0, 1, 2, 3, 4]"

definition teamB :: "addr list" where
  "teamB = [5, 6, 7, 8, 9]"

definition teamC :: "addr list" where
  "teamC = [10, 11, 12, 13, 14]"

definition teamD :: "addr list" where
  "teamD = [15, 16, 17, 18, 19]"

text \<open>Team A bats with A1 on strike and A2 at the other end; B4, a bowler, opens.\<close>

definition demoInnings :: Innings where
  "demoInnings =
     setBowler demoStore ''B4'' (setBatsmen demoStore ''A1'' ''A2'' (newInnings teamA teamB))"

section \<open>Observations used by the theorems\<close>

text \<open>
  The facts that every call of \<^verbatim>\<open>playBall\<close> on a running innings keeps: the three indices
  are inside their lineups, at least two players can bowl, the over in progress has fewer
  than six balls, and the counters agree with each other and stay within the limits of
  two overs and two wickets.
\<close>

definition engineInv :: "Innings \<Rightarrow> bool" where
  "engineInv inn =
     (inRange (battingOrder inn) (currentBatsman1 inn) \<and>
      inRange (battingOrder inn) (currentBatsman2 inn) \<and>
      inRange (bowlingOrder inn) (currentBowler inn) \<and>
      2 \<le> length (bowlingOrder inn) \<and>
      0 \<le> currentOverBalls inn \<and> currentOverBalls inn < 6 \<and>
      0 \<le> totalOvers inn \<and> totalOvers inn \<le> 2 \<and>
      totalBalls inn = 6 * totalOvers inn + currentOverBalls inn \<and>
      totalBalls inn \<le> 12 \<and> totalWickets inn \<le> 2)"

text \<open>
  The balls of an innings driven by a list of outcomes, each recorded as the pair of the
  over it belongs to (the number of overs completed before it) and the index of the
  player who bowled it. The record stops where the innings is complete, faults or does
  not return.
\<close>

fun ballLog :: "nat list \<Rightarrow> world \<Rightarrow> (int \<times> int) list" where
  "ballLog [] w = []"
| "ballLog (b # bs) w =
     (if isInningsComplete (snd w) then []
      else
        (case playBall b w of
           Some (Inr w1) \<Rightarrow> (totalOvers (snd w), currentBowler (snd w)) # ballLog bs w1
         | _ \<Rightarrow> []))"

text \<open>
  The specification's award rule, written from its words: the first player, in scan
  order, among those whose match credit is maximal.
\<close>

fun spec_firstMaxCredit :: "store \<Rightarrow> addr list \<Rightarrow> addr option" where
  "spec_firstMaxCredit st [] = None"
| "spec_firstMaxCredit st (p # ps) =
     (case spec_firstMaxCredit st ps of
        None \<Rightarrow> Some p
      | Some q \<Rightarrow> if matchCredits (st p) < matchCredits (st q) then Some q else Some p)"

text \<open>Further fixtures: A5, the last of the order, takes strike; and three names nobody has.\<close>

definition demoInningsLast :: Innings where
  "demoInningsLast =
     setBowler demoStore ''B4'' (setBatsmen demoStore ''A5'' ''A1'' (newInnings teamA teamB))"

definition demoInningsUnknown :: Innings where
  "demoInningsUnknown =
     setBowler demoStore ''Q3'' (setBatsmen demoStore ''Q1'' ''Q2'' (newInnings teamA teamB))"

definition demoMatch :: Match where
  "demoMatch = newMatch teamA teamB"

text \<open>
  The tournament of the four teams; its first two fixtures are A against B and A against
  C. In both, A4 bowls for team A, B4 and C4 bowl against it, and every ball is a wicket.
\<close>

definition demoTournament :: Tournament where
  "demoTournament = generateFixtures (newTournament [teamA, teamB, teamC, teamD])"

definition demoInput :: "nat \<Rightarrow> (string \<times> string \<times> string) \<times> (string \<times> string \<times> string)" where
  "demoInput r =
     (if r = 0 then ((''A1'', ''A2'', ''B4''), (''B1'', ''B2'', ''A4''))
      else ((''A1'', ''A2'', ''C4''), (''C1'', ''C2'', ''A4'')))"

definition allWickets :: "nat \<Rightarrow> nat" where
  "allWickets k = 5"

subsection \<open>Evaluation order\<close>

text \<open>
  Sequencing for the evaluation of concrete runs: \<open>andThen\<close> passes the result of a step
  that returned without fault to the next step, and the two functions below are the steps
  of \<open>playMatch\<close> after the first innings. Lemma \<open>playMatch_strict\<close> shows that they
  compute \<open>playMatch\<close>.
\<close>

fun andThen :: "(fault + 'a) option \<Rightarrow> ('a \<Rightarrow> (fault + 'b) option) \<Rightarrow> (fault + 'b) option" where
  "andThen None f = None"
| "andThen (Some (Inl e)) f = Some (Inl e)"
| "andThen (Some (Inr x)) f = f x"

fun playMatch_awards :: "Match \<Rightarrow> Innings \<Rightarrow> nat \<times> world \<Rightarrow> (fault + store \<times> Match) option" where
  "playMatch_awards m i1 (k2, st2, i2) =
     (let m1 = determineResult (m\<lparr>innings1 := i1, innings2 := i2\<rparr>)
      in case calculatePlayerOfMatch st2 m1 of
           Inl e \<Rightarrow> Some (Inl e)
         | Inr p \<Rightarrow> Some (Inr (st2, m1\<lparr>playerOfMatch := Some p\<rparr>)))"

fun playMatch_second ::
  "(nat \<Rightarrow> nat) \<Rightarrow> Match \<Rightarrow> nat \<times> world \<Rightarrow> (fault + store \<times> Match) option" where
  "playMatch_second rnd m (k1, st1, i1) =
     andThen (playInnings rnd k1 (st1, innings2 m)) (playMatch_awards m i1)"

text \<open>The career credit and the match credit of a player in the store a run ends with.\<close>

fun creditsOf :: "addr \<Rightarrow> (fault + store \<times> 'a) option \<Rightarrow> (int \<times> int) option" where
  "creditsOf p (Some (Inr (st, x))) = Some (totalCredits (st p), matchCredits (st p))"
| "creditsOf p _ = None"

section \<open>Properties of the engine\<close>

subsection \<open>The bowler change\<close>

lemma changeBowler_loop_result:
  assumes "changeBowler_loop inn = Some r"
  shows "case r of
           Inl e \<Rightarrow> e = DivByZero \<and> bowlingOrder inn = []
         | Inr inn' \<Rightarrow>
             (\<exists>c. inn' = inn\<lparr>currentBowler := c\<rparr> \<and> c \<noteq> previousBowler inn \<and>
                  inRange (bowlingOrder inn) c)"
  using assms
proof (induction rule: changeBowler_loop.raw_induct[rotated 1, consumes 1])
  case (1 loop inn r)
  show ?case
  proof (cases "length (bowlingOrder inn) = 0")
    case True
    with 1(2) show ?thesis by auto
  next
    case False
    let ?c = "(currentBowler inn + 1) mod int (length (bowlingOrder inn))"
    let ?inn = "inn\<lparr>currentBowler := ?c\<rparr>"
    have rng: "inRange (bowlingOrder inn) ?c"
      using False by (simp add: inRange_def)
    show ?thesis
    proof (cases "?c = previousBowler inn")
      case True
      with False 1(2) have "loop ?inn = Some r" by (simp add: Let_def)
      from 1(1)[OF this] show ?thesis
        by (cases r) auto
    next
      case neq: False
      with False 1(2) have "r = Inr ?inn" by (simp add: Let_def)
      with neq rng show ?thesis by auto
    qed
  qed
qed

lemma changeBowler_result:
  assumes "changeBowler inn = Some (Inr inn')"
  shows "\<exists>c. inn' = inn\<lparr>previousBowler := currentBowler inn, currentBowler := c\<rparr> \<and>
             c \<noteq> currentBowler inn \<and> inRange (bowlingOrder inn) c"
  using changeBowler_loop_result[of "inn\<lparr>previousBowler := currentBowler inn\<rparr>" "Inr inn'"] assms
  by (simp add: changeBowler_def)

lemma succ_mod_neq:
  fixes c n :: int
  assumes "0 \<le> c" "c < n" "2 \<le> n"
  shows "(c + 1) mod n \<noteq> c"
proof (cases "c + 1 < n")
  case True
  with assms show ?thesis by simp
next
  case False
  with assms have "c + 1 = n" by simp
  with assms show ?thesis by simp
qed

lemma changeBowler_returns:
  assumes "inRange (bowlingOrder inn) (currentBowler inn)" "2 \<le> length (bowlingOrder inn)"
  shows "changeBowler inn =
           Some (Inr (inn\<lparr>previousBowler := currentBowler inn,
                          currentBowler := (currentBowler inn + 1) mod int (length (bowlingOrder inn))\<rparr>))"
proof -
  have "(currentBowler inn + 1) mod int (length (bowlingOrder inn)) \<noteq> currentBowler inn"
    using assms by (intro succ_mod_neq) (simp_all add: inRange_def)
  with assms(2) show ?thesis
    unfolding changeBowler_def
    by (subst changeBowler_loop.simps) (auto simp: Let_def)
qed

text \<open>With one bowler in the order the loop finds nobody else and goes on for ever.\<close>

lemma changeBowler_single_diverges:
  assumes "length (bowlingOrder inn) = 1" and "currentBowler inn = 0"
  shows "changeBowler inn = None"
proof -
  let ?start = "inn\<lparr>previousBowler := currentBowler inn\<rparr>"
  have "\<not> (length (bowlingOrder i) = 1 \<and> previousBowler i = 0)"
    if "changeBowler_loop i = Some r" for i r
    using that
  proof (induction rule: changeBowler_loop.raw_induct[rotated 1, consumes 1])
    case (1 loop i r)
    show ?case
    proof
      assume a: "length (bowlingOrder i) = 1 \<and> previousBowler i = 0"
      with 1(2) have "loop (i\<lparr>currentBowler := 0\<rparr>) = Some r" by (simp add: Let_def)
      from 1(1)[OF this] a show False by simp
    qed
  qed
  from this[of ?start] assms show ?thesis
    unfolding changeBowler_def by (cases "changeBowler_loop ?start") simp_all
qed

lemma changeBatsman_frame [simp]:
  "battingOrder (changeBatsman inn) = battingOrder inn"
  "bowlingOrder (changeBatsman inn) = bowlingOrder inn"
  "currentBowler (changeBatsman inn) = currentBowler inn"
  "previousBowler (changeBatsman inn) = previousBowler inn"
  "totalRuns (changeBatsman inn) = totalRuns inn"
  "totalWickets (changeBatsman inn) = totalWickets inn"
  "totalOvers (changeBatsman inn) = totalOvers inn"
  "totalBalls (changeBatsman inn) = totalBalls inn"
  "currentOverBalls (changeBatsman inn) = currentOverBalls inn"
  by (simp_all add: changeBatsman_def Let_def)

lemma changeBatsman_inRange:
  assumes "inRange (battingOrder inn) (currentBatsman1 inn)"
      and "inRange (battingOrder inn) (currentBatsman2 inn)"
  shows "inRange (battingOrder inn) (currentBatsman1 (changeBatsman inn))"
    and "inRange (battingOrder inn) (currentBatsman2 (changeBatsman inn))"
  using assms by (auto simp: changeBatsman_def Let_def inRange_def)

lemma playBall_wicket_inv:
  assumes "engineInv inn"
  shows "\<exists>st1 inn1. playBall_wicket (st, inn) = Inr (st1, inn1) \<and>
           engineInv (inn1\<lparr>totalWickets := totalWickets inn\<rparr>) \<and>
           totalWickets inn1 = totalWickets inn + 1 \<and>
           totalOvers inn1 = totalOvers inn \<and> totalBalls inn1 = totalBalls inn"
  using assms changeBatsman_inRange[of "inn\<lparr>totalWickets := totalWickets inn + 1,
                          playerWickets := mapAdd (playerWickets inn) (bowlingOrder inn ! nat (currentBowler inn)) 1\<rparr>"]
  by (simp add: playBall_wicket_def printCommentary_def engineInv_def Let_def)

lemma playBall_runs_inv:
  assumes "engineInv inn"
  shows "\<exists>st1 inn1. playBall_runs outcome (st, inn) = Inr (st1, inn1) \<and>
           engineInv inn1 \<and> totalWickets inn1 = totalWickets inn \<and>
           totalOvers inn1 = totalOvers inn \<and> totalBalls inn1 = totalBalls inn"
  using assms
  by (simp add: playBall_runs_def printCommentary_def engineInv_def Let_def changeStrike_def)

subsection \<open>One ball\<close>

lemma playBall_count_inv:
  assumes "engineInv inn" "totalOvers inn < 2"
  shows "\<exists>st1 inn1. playBall_count (st, inn) = Some (Inr (st1, inn1)) \<and>
           engineInv inn1 \<and> totalWickets inn1 = totalWickets inn \<and>
           totalBalls inn1 = totalBalls inn + 1"
proof (cases "currentOverBalls inn + 1 = 6")
  case True
  from assms(1) have "2 \<le> length (bowlingOrder inn)"
    by (simp add: engineInv_def)
  then have "0 < int (length (bowlingOrder inn))"
    by (cases "bowlingOrder inn") simp_all
  then have "0 \<le> (currentBowler inn + 1) mod int (length (bowlingOrder inn))"
    "(currentBowler inn + 1) mod int (length (bowlingOrder inn)) < int (length (bowlingOrder inn))"
    by (rule pos_mod_sign, rule pos_mod_bound)
  with assms True show ?thesis
    by (simp add: playBall_count_def changeBowler_returns engineInv_def inRange_def Let_def)
next
  case False
  with assms show ?thesis
    by (simp add: playBall_count_def engineInv_def Let_def)
qed

lemma playBall_inv:
  assumes "engineInv inn" "\<not> isInningsComplete inn"
  shows "\<exists>st1 inn1. playBall outcome (st, inn) = Some (Inr (st1, inn1)) \<and>
           engineInv inn1 \<and> totalBalls inn1 = totalBalls inn + 1"
proof -
  from assms(2) have lim: "totalWickets inn < 2" "totalOvers inn < 2"
    by (simp_all add: isInningsComplete_def)
  have "\<exists>st1 inn1. (if outcome = 5 then playBall_wicket (st, inn)
                     else playBall_runs outcome (st, inn)) = Inr (st1, inn1) \<and>
          engineInv inn1 \<and> totalOvers inn1 = totalOvers inn \<and> totalBalls inn1 = totalBalls inn"
  proof (cases "outcome = 5")
    case True
    obtain st1 inn1 where w: "playBall_wicket (st, inn) = Inr (st1, inn1)"
      and i1: "engineInv (inn1\<lparr>totalWickets := totalWickets inn\<rparr>)"
      and w1: "totalWickets inn1 = totalWickets inn + 1"
      and o1: "totalOvers inn1 = totalOvers inn" "totalBalls inn1 = totalBalls inn"
      using playBall_wicket_inv[OF assms(1)] by blast
    from lim w1 i1 have "engineInv inn1" by (simp add: engineInv_def)
    with True w o1 show ?thesis by simp
  next
    case False
    with playBall_runs_inv[OF assms(1), of outcome st] show ?thesis by auto
  qed
  then obtain st1 inn1 where
    b: "(if outcome = 5 then playBall_wicket (st, inn)
         else playBall_runs outcome (st, inn)) = Inr (st1, inn1)"
    and i1: "engineInv inn1" and o1: "totalOvers inn1 = totalOvers inn"
    and b1: "totalBalls inn1 = totalBalls inn"
    by blast
  from lim o1 have "totalOvers inn1 < 2" by simp
  from playBall_count_inv[OF i1 this, of st1] obtain st2 inn2 where
    "playBall_count (st1, inn1) = Some (Inr (st2, inn2))" "engineInv inn2"
    "totalBalls inn2 = totalBalls inn1 + 1"
    by blast
  with b b1 assms(2) show ?thesis
    by (simp add: playBall_def)
qed

lemma playInnings_steps:
  assumes "engineInv inn"
  shows "\<exists>k' st' inn'. playInnings rnd k (st, inn) = Some (Inr (k', st', inn')) \<and>
           k \<le> k' \<and>
           playBalls (map rnd [k..<k']) (st, inn) = Some (Inr (st', inn')) \<and>
           isInningsComplete inn' \<and> engineInv inn' \<and>
           int k' - int k = totalBalls inn' - totalBalls inn"
  using assms
proof (induction "nat (12 - totalBalls inn)" arbitrary: k st inn rule: less_induct)
  case less
  show ?case
  proof (cases "isInningsComplete inn")
    case True
    with less.prems show ?thesis
      by (subst playInnings.simps) simp
  next
    case False
    obtain st1 inn1 where s: "playBall (rnd k) (st, inn) = Some (Inr (st1, inn1))"
      and i1: "engineInv inn1" and b1: "totalBalls inn1 = totalBalls inn + 1"
      using playBall_inv[OF less.prems False] by blast
    from False less.prems have "totalBalls inn < 12"
      by (simp add: isInningsComplete_def engineInv_def)
    with b1 have "nat (12 - totalBalls inn1) < nat (12 - totalBalls inn)" by simp
    from less.hyps[OF this i1, of "Suc k" st1] obtain k' st' inn' where
      r: "playInnings rnd (Suc k) (st1, inn1) = Some (Inr (k', st', inn'))"
      and le: "Suc k \<le> k'"
      and p: "playBalls (map rnd [Suc k..<k']) (st1, inn1) = Some (Inr (st', inn'))"
      and c: "isInningsComplete inn'" "engineInv inn'"
      "int k' - int (Suc k) = totalBalls inn' - totalBalls inn1"
      by blast
    from le have "[k..<k'] = k # [Suc k..<k']"
      by (simp add: upt_conv_Cons)
    with s p have "playBalls (map rnd [k..<k']) (st, inn) = Some (Inr (st', inn'))"
      by simp
    with False s r le c b1 show ?thesis
      by (subst playInnings.simps) simp
  qed
qed

lemma setBatsmen_loop_inRange:
  assumes "setBatsmen_loop st s ns ps i (b1, b2) = (c1, c2)" "0 \<le> i"
  shows "(c1 = b1 \<or> (i \<le> c1 \<and> c1 < i + int (length ps))) \<and>
         (c2 = b2 \<or> (i \<le> c2 \<and> c2 < i + int (length ps)))"
  using assms
proof (induction ps arbitrary: i b1 b2)
  case Nil
  then show ?case by simp
next
  case (Cons p ps)
  from Cons.prems have
    "setBatsmen_loop st s ns ps (i + 1)
       (if name (st p) = s then i else b1, if name (st p) = ns then i else b2) = (c1, c2)"
    by simp
  from Cons.IH[OF this] Cons.prems(2) show ?case
    by (auto split: if_splits)
qed

lemma setBowler_loop_inRange:
  assumes "0 \<le> i"
  shows "setBowler_loop st s ps i b = b \<or>
         (i \<le> setBowler_loop st s ps i b \<and> setBowler_loop st s ps i b < i + int (length ps))"
  using assms
proof (induction ps arbitrary: i b)
  case Nil
  then show ?case by simp
next
  case (Cons p ps)
  from Cons.IH[of "i + 1" "if name (st p) = s then i else b"] Cons.prems show ?case
    by (auto split: if_splits)
qed

lemma initial_engineInv:
  assumes "2 \<le> length batting" "2 \<le> length bowling"
  shows "engineInv (setBowler st bowlerName
           (setBatsmen st striker nonStriker (newInnings batting bowling)))"
proof -
  obtain c1 c2 where c: "setBatsmen_loop st striker nonStriker batting 0 (0, 1) = (c1, c2)"
    by (cases "setBatsmen_loop st striker nonStriker batting 0 (0, 1)")
  from setBatsmen_loop_inRange[OF c] assms(1)
  have "inRange batting c1" "inRange batting c2"
    by (auto simp: inRange_def)
  moreover from setBowler_loop_inRange[of 0 st bowlerName bowling 0] assms(2)
  have "inRange bowling (setBowler_loop st bowlerName bowling 0 0)"
    by (auto simp: inRange_def)
  ultimately show ?thesis
    using assms(2) c
    by (simp add: engineInv_def setBowler_def setBatsmen_def newInnings_def)
qed

lemma playBall_wicket_frame:
  assumes "playBall_wicket (st, inn) = Inr (st1, inn1)"
  shows "bowlingOrder inn1 = bowlingOrder inn" "battingOrder inn1 = battingOrder inn"
    "currentBowler inn1 = currentBowler inn" "totalOvers inn1 = totalOvers inn"
    "currentOverBalls inn1 = currentOverBalls inn" "totalWickets inn1 = totalWickets inn + 1"
    "currentBatsman1 inn1 = currentBatsman1 (changeBatsman inn)"
    "currentBatsman2 inn1 = currentBatsman2 (changeBatsman inn)"
  using assms
  by (auto simp: playBall_wicket_def Let_def changeBatsman_def split: if_splits sum.splits)

lemma playBall_runs_frame:
  assumes "playBall_runs outcome (st, inn) = Inr (st1, inn1)"
  shows "bowlingOrder inn1 = bowlingOrder inn" "battingOrder inn1 = battingOrder inn"
    "currentBowler inn1 = currentBowler inn" "totalOvers inn1 = totalOvers inn"
    "currentOverBalls inn1 = currentOverBalls inn" "totalWickets inn1 = totalWickets inn"
  using assms
  by (auto simp: playBall_runs_def Let_def changeStrike_def split: if_splits sum.splits)

lemma playBall_count_frame:
  assumes "playBall_count (st, inn) = Some (Inr (st1, inn1))"
  shows "bowlingOrder inn1 = bowlingOrder inn" "battingOrder inn1 = battingOrder inn"
    "currentBatsman1 inn1 = currentBatsman1 inn" "currentBatsman2 inn1 = currentBatsman2 inn"
    "totalWickets inn1 = totalWickets inn"
    "totalOvers inn1 = totalOvers inn + (if currentOverBalls inn + 1 = 6 then 1 else 0)"
    "if currentOverBalls inn + 1 = 6 then currentBowler inn1 \<noteq> currentBowler inn
     else currentBowler inn1 = currentBowler inn"
proof -
  let ?inn = "inn\<lparr>totalBalls := totalBalls inn + 1,
                      currentOverBalls := currentOverBalls inn + 1\<rparr>"
  have "inn1 = ?inn \<and> currentOverBalls inn + 1 \<noteq> 6 \<or>
        (\<exists>c. inn1 = ?inn\<lparr>previousBowler := currentBowler inn, currentBowler := c,
                            currentOverBalls := 0, totalOvers := totalOvers inn + 1\<rparr> \<and>
             c \<noteq> currentBowler inn \<and> currentOverBalls inn + 1 = 6)"
  proof (cases "currentOverBalls inn + 1 = 6")
    case True
    with assms obtain inn2 where c: "changeBowler ?inn = Some (Inr inn2)"
      and i: "inn1 = inn2\<lparr>currentOverBalls := 0, totalOvers := totalOvers inn2 + 1\<rparr>"
      by (auto simp: playBall_count_def Let_def split: if_splits option.splits sum.splits)
    from changeBowler_result[OF c] i True show ?thesis by auto
  next
    case False
    with assms show ?thesis
      by (auto simp: playBall_count_def Let_def split: if_splits)
  qed
  then show "bowlingOrder inn1 = bowlingOrder inn" "battingOrder inn1 = battingOrder inn"
    "currentBatsman1 inn1 = currentBatsman1 inn" "currentBatsman2 inn1 = currentBatsman2 inn"
    "totalWickets inn1 = totalWickets inn"
    "totalOvers inn1 = totalOvers inn + (if currentOverBalls inn + 1 = 6 then 1 else 0)"
    "if currentOverBalls inn + 1 = 6 then currentBowler inn1 \<noteq> currentBowler inn
     else currentBowler inn1 = currentBowler inn"
    by auto
qed

lemma playBall_frame:
  assumes "playBall outcome (st, inn) = Some (Inr (st1, inn1))" "\<not> isInningsComplete inn"
  shows "bowlingOrder inn1 = bowlingOrder inn" "battingOrder inn1 = battingOrder inn"
    "totalOvers inn1 = totalOvers inn + (if currentOverBalls inn + 1 = 6 then 1 else 0)"
    "if currentOverBalls inn + 1 = 6 then currentBowler inn1 \<noteq> currentBowler inn
     else currentBowler inn1 = currentBowler inn"
    "totalWickets inn1 = totalWickets inn + (if outcome = 5 then 1 else 0)"
proof -
  from assms obtain st0 inn0 where
    b: "(if outcome = 5 then playBall_wicket (st, inn) else playBall_runs outcome (st, inn)) =
          Inr (st0, inn0)"
    and c: "playBall_count (st0, inn0) = Some (Inr (st1, inn1))"
    by (auto simp: playBall_def split: sum.splits if_splits)
  have f: "bowlingOrder inn0 = bowlingOrder inn" "battingOrder inn0 = battingOrder inn"
    "currentBowler inn0 = currentBowler inn" "totalOvers inn0 = totalOvers inn"
    "currentOverBalls inn0 = currentOverBalls inn"
    "totalWickets inn0 = totalWickets inn + (if outcome = 5 then 1 else 0)"
    using b playBall_wicket_frame[of st inn st0 inn0] playBall_runs_frame[of outcome st inn st0 inn0]
    by (auto split: if_splits)
  from playBall_count_frame[OF c] f
  show "bowlingOrder inn1 = bowlingOrder inn" "battingOrder inn1 = battingOrder inn"
    "totalOvers inn1 = totalOvers inn + (if currentOverBalls inn + 1 = 6 then 1 else 0)"
    "if currentOverBalls inn + 1 = 6 then currentBowler inn1 \<noteq> currentBowler inn
     else currentBowler inn1 = currentBowler inn"
    "totalWickets inn1 = totalWickets inn + (if outcome = 5 then 1 else 0)"
    by (auto split: if_splits)
qed

lemma ballLog_Cons_member:
  assumes "(v, c) \<in> set (ballLog (b # bs) (st, inn))"
  shows "\<not> isInningsComplete inn \<and>
         (\<exists>st1 inn1. playBall b (st, inn) = Some (Inr (st1, inn1)) \<and>
            ((v, c) = (totalOvers inn, currentBowler inn) \<or>
             (v, c) \<in> set (ballLog bs (st1, inn1))))"
proof (cases "playBall b (st, inn)")
  case None
  with assms show ?thesis by (simp split: if_splits)
next
  case (Some r)
  with assms show ?thesis
    by (cases r) (auto split: if_splits)
qed

lemma ballLog_after:
  assumes "(v, c) \<in> set (ballLog os (st, inn))"
  shows "totalOvers inn \<le> v \<and>
         (if v = totalOvers inn then c = currentBowler inn else True) \<and>
         (if v = totalOvers inn + 1 then c \<noteq> currentBowler inn else True)"
  using assms
proof (induction os arbitrary: st inn)
  case Nil
  then show ?case by simp
next
  case (Cons b bs)
  from ballLog_Cons_member[OF Cons.prems] obtain st1 inn1 where
    nc: "\<not> isInningsComplete inn"
    and s: "playBall b (st, inn) = Some (Inr (st1, inn1))"
    and m: "(v, c) = (totalOvers inn, currentBowler inn) \<or> (v, c) \<in> set (ballLog bs (st1, inn1))"
    by blast
  note f = playBall_frame(3,4)[OF s nc]
  from m show ?case
  proof
    assume "(v, c) = (totalOvers inn, currentBowler inn)"
    then show ?thesis by simp
  next
    assume "(v, c) \<in> set (ballLog bs (st1, inn1))"
    from Cons.IH[OF this] f show ?thesis
      by (auto split: if_splits)
  qed
qed

subsection \<open>The match, step by step\<close>

lemma playMatch_strict [code]:
  "playMatch rnd st m = andThen (playInnings rnd 0 (st, innings1 m)) (playMatch_second rnd m)"
  by (auto simp: playMatch_def split: option.splits sum.splits)

subsection \<open>The award scan\<close>

lemma bestMatchCredits_append:
  "bestMatchCredits st (xs @ ys) acc = bestMatchCredits st ys (bestMatchCredits st xs acc)"
  by (induction xs arbitrary: acc) (auto split: prod.splits)

lemma bestMatchCredits_spec:
  "bestMatchCredits st xs (b, m) =
     (case spec_firstMaxCredit st xs of
        None \<Rightarrow> (b, m)
      | Some q \<Rightarrow> if m < matchCredits (st q) then (Some q, matchCredits (st q)) else (b, m))"
  by (induction xs arbitrary: b m) (auto split: option.splits)

lemma getPlayerOfInnings_spec:
  assumes "getPlayerOfInnings st inn = Some p"
  shows "spec_firstMaxCredit st (battingOrder inn @ bowlingOrder inn) = Some p"
proof -
  have "getPlayerOfInnings st inn =
          fst (bestMatchCredits st (battingOrder inn @ bowlingOrder inn) (None, - 1))"
    by (simp add: getPlayerOfInnings_def bestMatchCredits_append)
  with assms show ?thesis
    by (simp add: bestMatchCredits_spec split: option.splits if_splits)
qed

lemma spec_firstMaxCredit_first:
  assumes "spec_firstMaxCredit st xs = Some p"
  shows "\<exists>pre post. xs = pre @ p # post \<and>
           (\<forall>x\<in>set pre. matchCredits (st x) < matchCredits (st p)) \<and>
           (\<forall>x\<in>set post. matchCredits (st x) \<le> matchCredits (st p))"
  using assms
proof (induction xs arbitrary: p)
  case Nil
  then show ?case by simp
next
  case (Cons a xs)
  show ?case
  proof (cases "spec_firstMaxCredit st xs")
    case None
    then have "xs = []" by (cases xs) (auto split: option.splits if_splits)
    with Cons.prems None have "a # xs = [] @ p # [] \<and>
           (\<forall>x\<in>set []. matchCredits (st x) < matchCredits (st p)) \<and>
           (\<forall>x\<in>set []. matchCredits (st x) \<le> matchCredits (st p))"
      by simp
    then show ?thesis by blast
  next
    case (Some q)
    from Cons.IH[OF Some] obtain pre post where
      xs: "xs = pre @ q # post"
      and lt: "\<forall>x\<in>set pre. matchCredits (st x) < matchCredits (st q)"
      and le: "\<forall>x\<in>set post. matchCredits (st x) \<le> matchCredits (st q)"
      by blast
    show ?thesis
    proof (cases "matchCredits (st a) < matchCredits (st q)")
      case True
      with Cons.prems Some have "p = q" by simp
      with xs lt le True have "a # xs = (a # pre) @ p # post \<and>
           (\<forall>x\<in>set (a # pre). matchCredits (st x) < matchCredits (st p)) \<and>
           (\<forall>x\<in>set post. matchCredits (st x) \<le> matchCredits (st p))"
        by simp
      then show ?thesis by blast
    next
      case False
      with Cons.prems Some have pa: "p = a" by simp
      from False lt le xs have "\<forall>x\<in>set xs. matchCredits (st x) \<le> matchCredits (st a)"
        by force
      with pa have "a # xs = [] @ p # xs \<and>
           (\<forall>x\<in>set []. matchCredits (st x) < matchCredits (st p)) \<and>
           (\<forall>x\<in>set xs. matchCredits (st x) \<le> matchCredits (st p))"
        by simp
      then show ?thesis by blast
    qed
  qed
qed

subsection \<open>Traces of bowlers\<close>

lemma ballLog_pairs:
  assumes "(v1, c1) \<in> set (ballLog os (st, inn))"
      and "(v2, c2) \<in> set (ballLog os (st, inn))"
  shows "(if v2 = v1 then c2 = c1 else True) \<and> (if v2 = v1 + 1 then c2 \<noteq> c1 else True)"
  using assms
proof (induction os arbitrary: st inn)
  case Nil
  then show ?case by simp
next
  case (Cons b bs)
  from ballLog_Cons_member[OF Cons.prems(1)] obtain st1 inn1 where
    nc: "\<not> isInningsComplete inn"
    and s: "playBall b (st, inn) = Some (Inr (st1, inn1))"
    and m1: "(v1, c1) = (totalOvers inn, currentBowler inn) \<or> (v1, c1) \<in> set (ballLog bs (st1, inn1))"
    by blast
  from ballLog_Cons_member[OF Cons.prems(2)] s
  have m2: "(v2, c2) = (totalOvers inn, currentBowler inn) \<or> (v2, c2) \<in> set (ballLog bs (st1, inn1))"
    by auto
  note f = playBall_frame(3,4)[OF s nc]
  from m1 m2 consider
    (hh) "(v1, c1) = (totalOvers inn, currentBowler inn)" "(v2, c2) = (totalOvers inn, currentBowler inn)"
  | (ht) "(v1, c1) = (totalOvers inn, currentBowler inn)" "(v2, c2) \<in> set (ballLog bs (st1, inn1))"
  | (th) "(v1, c1) \<in> set (ballLog bs (st1, inn1))" "(v2, c2) = (totalOvers inn, currentBowler inn)"
  | (tt) "(v1, c1) \<in> set (ballLog bs (st1, inn1))" "(v2, c2) \<in> set (ballLog bs (st1, inn1))"
    by blast
  then show ?case
  proof cases
    case hh
    then show ?thesis by simp
  next
    case ht
    from ballLog_after[OF ht(2)] ht(1) f show ?thesis
      by (auto split: if_splits)
  next
    case th
    from ballLog_after[OF th(1)] th(2) f show ?thesis
      by (auto split: if_splits)
  next
    case tt
    from Cons.IH[OF tt] show ?thesis .
  qed
qed

lemma over_has_one_bowler:
  assumes "(v, c1) \<in> set (ballLog os (st, inn))"
      and "(v, c2) \<in> set (ballLog os (st, inn))"
  shows "c2 = c1"
  using ballLog_pairs[OF assms] by simp

subsection \<open>The setup\<close>

lemma setBatsmen_loop_absent:
  "setBatsmen_loop st s ns ps i (b1, b2) = (c1, c2) \<Longrightarrow>
     (if s \<in> set (map (\<lambda>p. name (st p)) ps) then True else c1 = b1) \<and>
     (if ns \<in> set (map (\<lambda>p. name (st p)) ps) then True else c2 = b2)"
  by (induction ps arbitrary: i b1 b2) (auto split: if_splits)

lemma setBowler_loop_absent:
  "s \<notin> set (map (\<lambda>p. name (st p)) ps) \<Longrightarrow> setBowler_loop st s ps i b = b"
  by (induction ps arbitrary: i b) auto

subsection \<open>Credits\<close>

text \<open>Every credit goes to the match credit and to the career credit alike.\<close>

lemma updateCredits_same_amount:
  "totalCredits (updateCredits runs wickets p) - totalCredits p =
     matchCredits (updateCredits runs wickets p) - matchCredits p"
  by (simp add: updateCredits_def split: PlayerType.splits)

section \<open>Batting credit\<close>

text \<open>
  C1. The claim: at every point of a match a batter's match credit is the floor of the
  batter's runs in the match divided by 20, so 20 runs or more give at least one credit.
  The code computes \<^verbatim>\<open>runs / 20\<close> on the runs of the single ball, which is 0 for every
  outcome: when A1 hits all twelve balls of the innings for six, A1 has 72 runs and no
  credit, neither for the match nor for the career.
\<close>

theorem batting_credit_stays_zero:
  "(case playInnings (\<lambda>k. 6) 0 (demoStore, demoInnings) of
      Some (Inr (k, st, inn)) \<Rightarrow>
        k = 12 \<and> runsScored (st 0) = 72 \<and> matchCredits (st 0) = 0 \<and> totalCredits (st 0) = 0
    | _ \<Rightarrow> False)"
  by code_simp

section \<open>Runs conceded\<close>

text \<open>
  C2. The claim: a ball of \<open>r\<close> runs adds \<open>r\<close> to the innings total, to the runs of the
  batter on strike and to the runs conceded by the current bowler. \<^verbatim>\<open>playBall\<close> calls
  \<^verbatim>\<open>addRuns\<close> on the batter only: after a four off B4's first ball the innings and A1 have
  4 runs and B4 has conceded none.
\<close>

theorem bowler_concedes_nothing:
  "(case playBall 4 (demoStore, demoInnings) of
      Some (Inr (st, inn)) \<Rightarrow>
        totalRuns inn = 4 \<and> playerRuns inn 0 = Some 4 \<and> runsScored (st 0) = 4 \<and>
        bowlingOrder inn ! nat (currentBowler inn) = 8 \<and>
        runsConceded (st 8) = 0 \<and> totalRunsConceded (st 8) = 0
    | _ \<Rightarrow> False)"
  by code_simp

section \<open>Match credit and career credit\<close>

text \<open>
  C3. The claim: a player's career credit after a match is the career credit before it
  plus the player's match credit of that match, match credits being reset at every match
  boundary. \<^verbatim>\<open>resetMatchCredits\<close> and \<^verbatim>\<open>resetMatchStats\<close> exist, but nothing calls them:
  \<^verbatim>\<open>playRound\<close> sets the next match up and plays it. A4 takes two wickets in each of the
  first two rounds. After round one A4's career and match credit are 2 and 2; after round
  two they are 4 and 4, so the match credit reads 4 for a match that earned 2, and the
  career credit before it plus that match credit is 6, not 4.
\<close>

theorem match_credit_is_never_reset:
  "creditsOf 3 (playTournament_loop (\<lambda>r. allWickets) demoInput 1
                  (Some (Inr (demoStore, demoTournament)))) = Some (2, 2) \<and>
   creditsOf 3 (playTournament_loop (\<lambda>r. allWickets) demoInput 2
                  (Some (Inr (demoStore, demoTournament)))) = Some (4, 4)"
  by code_simp

section \<open>The player of the match\<close>

text \<open>
  C4. The claim: when the awardees of the two innings have equal match credit, the player
  of the match is the awardee of the first innings. \<^verbatim>\<open>calculatePlayerOfMatch\<close> returns
  \<^verbatim>\<open>player1\<close> only if its credit is strictly greater and \<^verbatim>\<open>player2\<close> otherwise. In the
  match of A against B where every ball is a wicket, A4 and B4 end with 2 credits each;
  the first innings' scan meets A4 (address 3) first, the second innings' scan meets B4
  (address 8) first, and B4 is the player of the match.
\<close>

theorem tie_goes_to_second_innings:
  "(case playMatch allWickets demoStore
           (setupInnings demoStore (''A1'', ''A2'', ''B4'') (''B1'', ''B2'', ''A4'') demoMatch) of
      Some (Inr (st, m)) \<Rightarrow>
        getPlayerOfInnings st (innings1 m) = Some 3 \<and>
        getPlayerOfInnings st (innings2 m) = Some 8 \<and>
        matchCredits (st 3) = 2 \<and> matchCredits (st 8) = 2 \<and>
        playerOfMatch m = Some 8
    | _ \<Rightarrow> False)"
  by code_simp

text \<open>
  C4 as amended: each innings' awardee is the first player with maximal match credit in
  that innings' scan (batting order, then bowling order); the player of the match is the
  first innings' awardee when its match credit is strictly higher, and the second
  innings' awardee otherwise, so also when the two credits are equal.
\<close>

theorem player_of_match_is_second_awardee_unless_first_is_higher:
  assumes "getPlayerOfInnings st (innings1 m) = Some p1"
      and "getPlayerOfInnings st (innings2 m) = Some p2"
  shows "spec_firstMaxCredit st (battingOrder (innings1 m) @ bowlingOrder (innings1 m)) = Some p1 \<and>
         spec_firstMaxCredit st (battingOrder (innings2 m) @ bowlingOrder (innings2 m)) = Some p2 \<and>
         calculatePlayerOfMatch st m =
           Inr (if matchCredits (st p2) < matchCredits (st p1) then p1 else p2)"
  using assms getPlayerOfInnings_spec[OF assms(1)] getPlayerOfInnings_spec[OF assms(2)]
  by (simp add: calculatePlayerOfMatch_def)

theorem player_of_match_is_second_awardee_unless_first_is_higher_witness:
  "getPlayerOfInnings demoStore (innings1 demoMatch) = Some 0 \<and>
   getPlayerOfInnings demoStore (innings2 demoMatch) = Some 5 \<and>
   matchCredits (demoStore 5) = matchCredits (demoStore 0) \<and>
   calculatePlayerOfMatch demoStore demoMatch = Inr 5"
proof -
  have h1: "getPlayerOfInnings demoStore (innings1 demoMatch) = Some 0"
    by code_simp
  have h2: "getPlayerOfInnings demoStore (innings2 demoMatch) = Some 5"
    by code_simp
  have c: "matchCredits (demoStore 5) = matchCredits (demoStore 0)"
    by code_simp
  from player_of_match_is_second_awardee_unless_first_is_higher[OF h1 h2] h1 h2 c
  show ?thesis by simp
qed

section \<open>Termination of an innings\<close>

text \<open>
  C5. For the configuration the code has (two wickets, two overs, six balls an over) and
  every source of outcomes, stepping a freshly set up innings reaches Complete within 12
  steps: there is a number \<open>k\<close> of at most 12 such that \<open>k\<close> calls of \<^verbatim>\<open>playBall\<close>, on the
  first \<open>k\<close> outcomes drawn, each return without a fault and lead to a state that is
  complete, has counted exactly \<open>k\<close> balls, and has at most 2 wickets and at most 2 overs;
  the loop of \<^verbatim>\<open>playMatch\<close> returns that state after those \<open>k\<close> draws. The lineups need two
  players each, as the squads of five have: the second batting index starts at 1, and
  with a single bowler \<^verbatim>\<open>changeBowler\<close> does not return (lemma
  \<open>changeBowler_single_diverges\<close>).
\<close>

theorem innings_completes_within_twelve_balls:
  assumes "2 \<le> length batting" and "2 \<le> length bowling"
  shows "\<exists>k st' inn'.
           playInnings rnd 0
             (st, setBowler st bowlerName
                    (setBatsmen st striker nonStriker (newInnings batting bowling))) =
             Some (Inr (k, st', inn')) \<and>
           playBalls (map rnd [0..<k])
             (st, setBowler st bowlerName
                    (setBatsmen st striker nonStriker (newInnings batting bowling))) =
             Some (Inr (st', inn')) \<and>
           totalBalls inn' = int k \<and>
           k \<le> 12 \<and> isInningsComplete inn' \<and> totalWickets inn' \<le> 2 \<and> totalOvers inn' \<le> 2"
proof -
  let ?inn = "setBowler st bowlerName (setBatsmen st striker nonStriker (newInnings batting bowling))"
  have b0: "totalBalls ?inn = 0"
    by (simp add: setBowler_def setBatsmen_def newInnings_def split: prod.splits)
  from playInnings_steps[OF initial_engineInv[OF assms], of rnd 0 st st bowlerName striker nonStriker]
  obtain k st' inn' where
    r: "playInnings rnd 0 (st, ?inn) = Some (Inr (k, st', inn'))"
    "playBalls (map rnd [0..<k]) (st, ?inn) = Some (Inr (st', inn'))"
    "isInningsComplete inn'" "engineInv inn'" "int k - int 0 = totalBalls inn' - totalBalls ?inn"
    by blast
  from r(4) have "totalBalls inn' \<le> 12" "totalWickets inn' \<le> 2" "totalOvers inn' \<le> 2"
    by (simp_all add: engineInv_def)
  with r b0 show ?thesis by simp
qed

theorem innings_completes_within_twelve_balls_witness:
  "2 \<le> length teamA \<and> 2 \<le> length teamB \<and>
   (\<exists>k st' inn'.
      playInnings (\<lambda>k. 1) 0 (demoStore, demoInnings) = Some (Inr (k, st', inn')) \<and>
      playBalls (map (\<lambda>k. 1) [0..<k]) (demoStore, demoInnings) = Some (Inr (st', inn')) \<and>
      totalBalls inn' = int k \<and>
      k \<le> 12 \<and> isInningsComplete inn' \<and> totalWickets inn' \<le> 2 \<and> totalOvers inn' \<le> 2)"
proof -
  have h1: "2 \<le> length teamA" and h2: "2 \<le> length teamB"
    by (simp_all add: teamA_def teamB_def)
  from innings_completes_within_twelve_balls
         [OF h1 h2, of "\<lambda>k. 1" demoStore "''B4''" "''A1''" "''A2''"] h1 h2
  show ?thesis
    by (simp add: demoInnings_def)
qed

section \<open>A wicket with no batter left\<close>

text \<open>
  C6. The claim: a wicket with no unused position in the batting order forces the innings
  to Complete whatever the limits. The code has no such state: \<^verbatim>\<open>changeBatsman\<close> guards the
  replacement with \<^verbatim>\<open>nextBatsman < battingOrder.size()\<close> and otherwise does nothing, and
  \<^verbatim>\<open>isInningsComplete\<close> looks at the two limits only. With A5, index 4 of 5, on strike, the
  first wicket leaves both indices where they were and the innings running.
\<close>

theorem no_replacement_does_not_complete:
  "\<not> inRange (battingOrder demoInningsLast)
       (max (currentBatsman1 demoInningsLast) (currentBatsman2 demoInningsLast) + 1) \<and>
   (case playBall 5 (demoStore, demoInningsLast) of
      Some (Inr (st, inn)) \<Rightarrow>
        totalWickets inn = 1 \<and> currentBatsman1 inn = 4 \<and> currentBatsman2 inn = 0 \<and>
        \<not> isInningsComplete inn
    | _ \<Rightarrow> False)"
  by code_simp

text \<open>
  C6 as amended: when a wicket falls and no unused position exists, both batting indices
  stay as they are, and the innings is complete after that ball exactly when the ball was
  the second wicket or the last ball of the second over.
\<close>

theorem wicket_without_replacement_keeps_batters:
  assumes "\<not> isInningsComplete inn"
      and "\<not> inRange (battingOrder inn) (max (currentBatsman1 inn) (currentBatsman2 inn) + 1)"
      and "playBall 5 (st, inn) = Some (Inr (st', inn'))"
  shows "currentBatsman1 inn' = currentBatsman1 inn \<and>
         currentBatsman2 inn' = currentBatsman2 inn \<and>
         isInningsComplete inn' =
           (totalWickets inn = 1 \<or> (totalOvers inn = 1 \<and> currentOverBalls inn = 5))"
proof -
  from assms(1,3) obtain st0 inn0 where
    b: "playBall_wicket (st, inn) = Inr (st0, inn0)"
    and c: "playBall_count (st0, inn0) = Some (Inr (st', inn'))"
    by (auto simp: playBall_def split: sum.splits)
  from playBall_count_frame(3,4)[OF c] playBall_wicket_frame(7,8)[OF b]
  have "currentBatsman1 inn' = currentBatsman1 (changeBatsman inn)"
    "currentBatsman2 inn' = currentBatsman2 (changeBatsman inn)"
    by simp_all
  moreover from assms(2) have "changeBatsman inn = inn"
    by (auto simp: changeBatsman_def Let_def inRange_def max_def)
  ultimately have idx: "currentBatsman1 inn' = currentBatsman1 inn"
    "currentBatsman2 inn' = currentBatsman2 inn"
    by simp_all
  from playBall_frame(3,5)[OF assms(3,1)] assms(1)
  have "isInningsComplete inn' =
          (totalWickets inn = 1 \<or> (totalOvers inn = 1 \<and> currentOverBalls inn = 5))"
    by (auto simp: isInningsComplete_def split: if_splits)
  with idx show ?thesis by simp
qed

theorem wicket_without_replacement_keeps_batters_witness:
  "\<not> isInningsComplete demoInningsLast \<and>
   \<not> inRange (battingOrder demoInningsLast)
       (max (currentBatsman1 demoInningsLast) (currentBatsman2 demoInningsLast) + 1) \<and>
   (case playBall 5 (demoStore, demoInningsLast) of
      Some (Inr (st', inn')) \<Rightarrow>
        currentBatsman1 inn' = currentBatsman1 demoInningsLast \<and>
        currentBatsman2 inn' = currentBatsman2 demoInningsLast \<and>
        \<not> isInningsComplete inn'
    | _ \<Rightarrow> False)"
proof -
  have h1: "\<not> isInningsComplete demoInningsLast"
    by code_simp
  have h2: "\<not> inRange (battingOrder demoInningsLast)
       (max (currentBatsman1 demoInningsLast) (currentBatsman2 demoInningsLast) + 1)"
    by code_simp
  have "case playBall 5 (demoStore, demoInningsLast) of Some (Inr w) \<Rightarrow> True | _ \<Rightarrow> False"
    by code_simp
  then obtain st' inn' where
    h3: "playBall 5 (demoStore, demoInningsLast) = Some (Inr (st', inn'))"
    by (auto split: option.splits sum.splits)
  have b: "totalWickets demoInningsLast = 0" "totalOvers demoInningsLast = 0"
    by code_simp+
  from wicket_without_replacement_keeps_batters[OF h1 h2 h3] b h1 h2 h3 show ?thesis
    by simp
qed

section \<open>Balls bowled\<close>

text \<open>
  C7. The claim: every ball played adds exactly one to the current bowler's balls bowled,
  wickets included. The wicket branch calls \<^verbatim>\<open>addBall\<close> on the bowler and so does the
  common tail of \<^verbatim>\<open>playBall\<close>: B4's first ball, a wicket, counts as two balls bowled.
\<close>

theorem wicket_ball_counted_twice:
  "(case playBall 5 (demoStore, demoInnings) of
      Some (Inr (st, inn)) \<Rightarrow>
        totalBalls inn = 1 \<and> totalWickets inn = 1 \<and>
        ballsBowled (demoStore 8) = 0 \<and> totalBallsBowled (demoStore 8) = 0 \<and>
        ballsBowled (st 8) = 2 \<and> totalBallsBowled (st 8) = 2
    | _ \<Rightarrow> False)"
  by code_simp

section \<open>Bowler rotation\<close>

text \<open>
  C8. In every execution of an innings, whatever the outcomes, a ball of one over and a
  ball of the next over are never bowled by the same index of the bowling order. With
  \<open>over_has_one_bowler\<close> (all balls of an over have one bowler) this is the claim: no
  over's bowler is the bowler of the over before. It holds for every lineup the engine
  gets through; a bowling order of at least 2, as in the claim, is what lets the second
  over start at all.
\<close>

theorem consecutive_overs_have_different_bowlers:
  assumes "(v, c1) \<in> set (ballLog os (st, inn))"
      and "(v + 1, c2) \<in> set (ballLog os (st, inn))"
  shows "c2 \<noteq> c1"
  using ballLog_pairs[OF assms] by simp

theorem consecutive_overs_have_different_bowlers_witness:
  "(0, 3) \<in> set (ballLog [1, 1, 1, 1, 1, 1, 1] (demoStore, demoInnings)) \<and>
   (0 + 1, 4) \<in> set (ballLog [1, 1, 1, 1, 1, 1, 1] (demoStore, demoInnings)) \<and>
   (4 :: int) \<noteq> 3"
proof -
  have h1: "(0, 3) \<in> set (ballLog [1, 1, 1, 1, 1, 1, 1] (demoStore, demoInnings))"
    by code_simp
  have h2: "(0 + 1, 4) \<in> set (ballLog [1, 1, 1, 1, 1, 1, 1] (demoStore, demoInnings))"
    by code_simp
  from consecutive_overs_have_different_bowlers[OF h1 h2] h1 h2 show ?thesis
    by simp
qed

section \<open>Names that are not in the lineup\<close>

text \<open>
  C9. The claim: a striker, non-striker or bowler name absent from the lineup makes the
  setup report a configuration error and not go on with default indices. \<^verbatim>\<open>setBatsmen\<close> and
  \<^verbatim>\<open>setBowler\<close> return \<^verbatim>\<open>void\<close> and have no error path: with three unknown names the
  indices are the constructor's 0, 1 and 0, and the first ball is played by A1.
\<close>

theorem absent_names_proceed_with_defaults:
  "''Q1'' \<notin> set (map (\<lambda>p. name (demoStore p)) teamA) \<and>
   ''Q2'' \<notin> set (map (\<lambda>p. name (demoStore p)) teamA) \<and>
   ''Q3'' \<notin> set (map (\<lambda>p. name (demoStore p)) teamB) \<and>
   currentBatsman1 demoInningsUnknown = 0 \<and> currentBatsman2 demoInningsUnknown = 1 \<and>
   currentBowler demoInningsUnknown = 0 \<and>
   (case playBall 4 (demoStore, demoInningsUnknown) of
      Some (Inr (st, inn)) \<Rightarrow> totalBalls inn = 1 \<and> runsScored (st 0) = 4
    | _ \<Rightarrow> False)"
  by code_simp

text \<open>
  C9 as amended: the setup reports nothing; an index whose name is absent from the lineup
  keeps the value it had before the setup.
\<close>

theorem setup_keeps_index_of_absent_name:
  "(striker \<notin> set (map (\<lambda>p. name (st p)) (battingOrder inn)) \<longrightarrow>
      currentBatsman1 (setBatsmen st striker nonStriker inn) = currentBatsman1 inn) \<and>
   (nonStriker \<notin> set (map (\<lambda>p. name (st p)) (battingOrder inn)) \<longrightarrow>
      currentBatsman2 (setBatsmen st striker nonStriker inn) = currentBatsman2 inn) \<and>
   (bowlerName \<notin> set (map (\<lambda>p. name (st p)) (bowlingOrder inn)) \<longrightarrow>
      currentBowler (setBowler st bowlerName inn) = currentBowler inn)"
proof -
  obtain c1 c2 where
    c: "setBatsmen_loop st striker nonStriker (battingOrder inn) 0
          (currentBatsman1 inn, currentBatsman2 inn) = (c1, c2)"
    by (cases "setBatsmen_loop st striker nonStriker (battingOrder inn) 0
          (currentBatsman1 inn, currentBatsman2 inn)")
  from setBatsmen_loop_absent[OF c] c show ?thesis
    by (auto simp: setBatsmen_def setBowler_def setBowler_loop_absent split: if_splits)
qed

theorem setup_keeps_index_of_absent_name_witness:
  "''Q1'' \<notin> set (map (\<lambda>p. name (demoStore p)) (battingOrder (newInnings teamA teamB))) \<and>
   ''Q2'' \<notin> set (map (\<lambda>p. name (demoStore p)) (battingOrder (newInnings teamA teamB))) \<and>
   ''Q3'' \<notin> set (map (\<lambda>p. name (demoStore p)) (bowlingOrder (newInnings teamA teamB))) \<and>
   currentBatsman1 (setBatsmen demoStore ''Q1'' ''Q2'' (newInnings teamA teamB)) = 0 \<and>
   currentBatsman2 (setBatsmen demoStore ''Q1'' ''Q2'' (newInnings teamA teamB)) = 1 \<and>
   currentBowler (setBowler demoStore ''Q3'' (newInnings teamA teamB)) = 0"
proof -
  have h: "''Q1'' \<notin> set (map (\<lambda>p. name (demoStore p)) (battingOrder (newInnings teamA teamB)))"
    "''Q2'' \<notin> set (map (\<lambda>p. name (demoStore p)) (battingOrder (newInnings teamA teamB)))"
    "''Q3'' \<notin> set (map (\<lambda>p. name (demoStore p)) (bowlingOrder (newInnings teamA teamB)))"
    by code_simp+
  have d: "currentBatsman1 (newInnings teamA teamB) = 0"
    "currentBatsman2 (newInnings teamA teamB) = 1" "currentBowler (newInnings teamA teamB) = 0"
    by (simp_all add: newInnings_def)
  from setup_keeps_index_of_absent_name
         [of "''Q1''" demoStore "newInnings teamA teamB" "''Q2''" "''Q3''"] h d
  show ?thesis by simp
qed

section \<open>Which batter is replaced\<close>

text \<open>
  C10. On a wicket for which a replacement exists (the position one past the higher of
  the two batting indices is inside the batting order), \<^verbatim>\<open>playBall\<close> returns, the higher
  index is replaced by that position and the other index keeps its value and its role:
  when the striker's index \<open>currentBatsman1\<close> is the higher one it is replaced, otherwise
  the non-striker's index \<open>currentBatsman2\<close> is, although the striker was the one facing
  the ball. The innings is one the engine can be in: it is running, the striker and the
  bowler are inside their lineups, and the bowling order has a second bowler for the end
  of an over.
\<close>

theorem wicket_replaces_higher_index:
  assumes "\<not> isInningsComplete inn"
      and "inRange (battingOrder inn) (max (currentBatsman1 inn) (currentBatsman2 inn) + 1)"
      and "inRange (battingOrder inn) (currentBatsman1 inn)"
      and "inRange (bowlingOrder inn) (currentBowler inn)"
      and "2 \<le> length (bowlingOrder inn)"
  shows "\<exists>st' inn'.
           playBall 5 (st, inn) = Some (Inr (st', inn')) \<and>
           (if currentBatsman1 inn > currentBatsman2 inn
            then currentBatsman1 inn' = max (currentBatsman1 inn) (currentBatsman2 inn) + 1 \<and>
                 currentBatsman2 inn' = currentBatsman2 inn
            else currentBatsman2 inn' = max (currentBatsman1 inn) (currentBatsman2 inn) + 1 \<and>
                 currentBatsman1 inn' = currentBatsman1 inn)"
proof -
  let ?b = "bowlingOrder inn ! nat (currentBowler inn)"
  let ?inn1 = "inn\<lparr>totalWickets := totalWickets inn + 1,
                      playerWickets := mapAdd (playerWickets inn) ?b 1\<rparr>"
  have rng: "inRange (battingOrder inn) (currentBatsman1 (changeBatsman ?inn1))"
    using assms(2,3) by (auto simp: changeBatsman_def Let_def inRange_def)
  obtain st0 where w: "playBall_wicket (st, inn) = Inr (st0, changeBatsman ?inn1)"
    using assms(4) rng by (simp add: playBall_wicket_def printCommentary_def Let_def)
  have "\<exists>st' inn'. playBall_count (st0, changeBatsman ?inn1) = Some (Inr (st', inn'))"
  proof (cases "currentOverBalls inn + 1 = 6")
    case True
    with assms(4,5) show ?thesis
      by (simp add: playBall_count_def changeBowler_returns Let_def)
  next
    case False
    with assms(4) show ?thesis
      by (simp add: playBall_count_def Let_def)
  qed
  then obtain st' inn' where c: "playBall_count (st0, changeBatsman ?inn1) = Some (Inr (st', inn'))"
    by blast
  from assms(1) w c have r: "playBall 5 (st, inn) = Some (Inr (st', inn'))"
    by (simp add: playBall_def)
  from playBall_count_frame(3,4)[OF c]
  have "currentBatsman1 inn' = currentBatsman1 (changeBatsman ?inn1)"
    "currentBatsman2 inn' = currentBatsman2 (changeBatsman ?inn1)"
    by simp_all
  with assms(2) have "if currentBatsman1 inn > currentBatsman2 inn
         then currentBatsman1 inn' = max (currentBatsman1 inn) (currentBatsman2 inn) + 1 \<and>
              currentBatsman2 inn' = currentBatsman2 inn
         else currentBatsman2 inn' = max (currentBatsman1 inn) (currentBatsman2 inn) + 1 \<and>
              currentBatsman1 inn' = currentBatsman1 inn"
    by (simp add: changeBatsman_def Let_def inRange_def)
  with r show ?thesis by blast
qed

theorem wicket_replaces_higher_index_witness:
  "\<not> isInningsComplete demoInnings \<and>
   inRange (battingOrder demoInnings)
     (max (currentBatsman1 demoInnings) (currentBatsman2 demoInnings) + 1) \<and>
   inRange (battingOrder demoInnings) (currentBatsman1 demoInnings) \<and>
   inRange (bowlingOrder demoInnings) (currentBowler demoInnings) \<and>
   2 \<le> length (bowlingOrder demoInnings) \<and>
   currentBatsman1 demoInnings = 0 \<and> currentBatsman2 demoInnings = 1 \<and>
   (\<exists>st' inn'.
      playBall 5 (demoStore, demoInnings) = Some (Inr (st', inn')) \<and>
      currentBatsman1 inn' = 0 \<and> currentBatsman2 inn' = 2)"
proof -
  have h1: "\<not> isInningsComplete demoInnings"
    by code_simp
  have h2: "inRange (battingOrder demoInnings)
              (max (currentBatsman1 demoInnings) (currentBatsman2 demoInnings) + 1)"
    by code_simp
  have h3: "inRange (battingOrder demoInnings) (currentBatsman1 demoInnings)"
    by code_simp
  have h4: "inRange (bowlingOrder demoInnings) (currentBowler demoInnings)"
    by code_simp
  have h5: "2 \<le> length (bowlingOrder demoInnings)"
    by code_simp
  have b: "currentBatsman1 demoInnings = 0" "currentBatsman2 demoInnings = 1"
    by code_simp+
  from wicket_replaces_higher_index[OF h1 h2 h3 h4 h5, of demoStore] b h1 h2 h3 h4 h5
  show ?thesis
    by auto
qed

end
